theory Spec2Isabelle
  imports Complex_Main "HOL-Library.Word"
begin

unbundle bit_operations_syntax

section \<open>The gradient boosting learner of learner-inl.h\<close>

text \<open>
  The C++ \<open>float\<close> is the type parameter \<open>'f\<close> of the records below. The loss
  formulas and the bias adjustment read it as \<open>real\<close>: arithmetic is exact, rounding,
  infinities and NaN are not modelled. Persistence reads it as the four-byte object
  representation, a \<open>32 word\<close>. A C++ \<open>int\<close> or \<open>unsigned\<close> is a \<open>32 word\<close>, read with
  \<open>sint\<close> or \<open>unat\<close>.
\<close>

text \<open>
  Modelled from the spec: \<open>utils::Assert\<close> and \<open>utils::Error\<close> (utils/utils.h is not among
  the sources) end the process with a diagnostic (section 7: fatal, process-terminating
  conditions). A run that ends so returns the error instead of a result.
\<close>

datatype error =
    AssertError string  \<comment> \<open>\<open>utils::Assert\<close> on a false condition\<close>
  | Error string        \<comment> \<open>\<open>utils::Error\<close>\<close>
  | OutOfBounds         \<comment> \<open>a vector read or written past its size\<close>
  | NullPointer         \<comment> \<open>the training data pointer used before \<open>SetData\<close>\<close>

subsection \<open>The C library calls of the file\<close>

text \<open>
  A \<open>const char*\<close> is a \<open>string\<close>: the characters before the terminating NUL, so
  \<open>!strcmp(a, b)\<close> is \<open>a = b\<close>. \<open>atoi\<close> skips white space, reads one optional sign and
  the decimal digits that follow, and stops at the first other character; its result is
  the mathematical value (C leaves a value outside \<open>int\<close> undefined; a field assignment
  below truncates it to 32 bits). \<open>atof\<close> reads the decimal syntax (sign, digits,
  fraction, exponent) exactly; the spellings of infinity, NaN and hexadecimal floats
  are outside the real-number reading of \<open>float\<close>.
\<close>

definition isspace :: "char \<Rightarrow> bool" where
  "isspace c = (c \<in> set [CHR 0x20, CHR 0x09, CHR 0x0A, CHR 0x0B, CHR 0x0C, CHR 0x0D])"

definition isdigit :: "char \<Rightarrow> bool" where
  "isdigit c = (48 \<le> (of_char c :: nat) \<and> (of_char c :: nat) \<le> 57)"

definition digit_value :: "char \<Rightarrow> nat" where
  "digit_value c = of_char c - 48"

fun digits_value :: "nat \<Rightarrow> string \<Rightarrow> nat" where
  "digits_value acc [] = acc"
| "digits_value acc (c # cs) =
     (if isdigit c then digits_value (10 * acc + digit_value c) cs else acc)"

definition atoi :: "string \<Rightarrow> int" where
  "atoi s =
     (case dropWhile isspace s of
        [] \<Rightarrow> 0
      | c # cs \<Rightarrow>
          if c = CHR ''-'' then - int (digits_value 0 cs)
          else if c = CHR ''+'' then int (digits_value 0 cs)
          else int (digits_value 0 (c # cs)))"

definition split_sign :: "string \<Rightarrow> bool \<times> string" where
  "split_sign s =
     (case s of
        [] \<Rightarrow> (False, [])
      | c # cs \<Rightarrow>
          if c = CHR ''-'' then (True, cs)
          else if c = CHR ''+'' then (False, cs)
          else (False, s))"

definition pow10 :: "int \<Rightarrow> real" where
  "pow10 e = (if 0 \<le> e then 10 ^ nat e else 1 / 10 ^ nat (- e))"

definition atof_exponent :: "string \<Rightarrow> int" where
  "atof_exponent s =
     (case s of
        [] \<Rightarrow> 0
      | c # cs \<Rightarrow>
          if c = CHR ''e'' \<or> c = CHR ''E'' then
            (let (neg, ds) = split_sign cs
             in if neg then - int (digits_value 0 ds) else int (digits_value 0 ds))
          else 0)"

definition atof :: "string \<Rightarrow> real" where
  "atof s =
     (let (neg, u) = split_sign (dropWhile isspace s);
          ip = takeWhile isdigit u;
          r1 = dropWhile isdigit u;
          fp = (case r1 of
                  [] \<Rightarrow> []
                | c # cs \<Rightarrow> if c = CHR ''.'' then takeWhile isdigit cs else []);
          r2 = (case r1 of
                  [] \<Rightarrow> []
                | c # cs \<Rightarrow> if c = CHR ''.'' then dropWhile isdigit cs else r1);
          mant = real (digits_value 0 (ip @ fp)) / 10 ^ length fp;
          ex = (if ip = [] \<and> fp = [] then 0 else atof_exponent r2)
      in (if neg then - (mant * pow10 ex) else mant * pow10 ex))"

text \<open>
  \<open>sprintf\<close> with \<open>%u\<close> and \<open>%d\<close>: the decimal digits, a minus sign before a negative
  value.
\<close>

definition digit_char :: "nat \<Rightarrow> char" where
  "digit_char d = char_of (48 + d)"

function show_nat :: "nat \<Rightarrow> string" where
  "show_nat n =
     (if n < 10 then [digit_char n] else show_nat (n div 10) @ [digit_char (n mod 10)])"
  by pat_completeness auto
termination
  by (relation "measure id") auto

declare show_nat.simps [simp del]

definition show_int :: "int \<Rightarrow> string" where
  "show_int i = (if i < 0 then CHR ''-'' # show_nat (nat (- i)) else show_nat (nat i))"

text \<open>\<open>std::vector::resize\<close>: the first \<open>n\<close> elements are kept, new ones are \<open>v\<close>.\<close>

definition resize :: "nat \<Rightarrow> 'a \<Rightarrow> 'a list \<Rightarrow> 'a list" where
  "resize n v xs = take n xs @ replicate (n - length xs) v"

subsection \<open>struct ModelParam\<close>

definition kLinearSquare :: "32 word" where "kLinearSquare = 0"
definition kLogisticNeglik :: "32 word" where "kLogisticNeglik = 1"
definition kLogisticClassify :: "32 word" where "kLogisticClassify = 2"

record 'f ModelParam =
  base_score :: 'f
  loss_type :: "32 word"
  num_feature :: "32 word"
  reserved :: "32 word list"

definition PredTransform :: "real ModelParam \<Rightarrow> real \<Rightarrow> error + real" where
  "PredTransform mp x =
     (if loss_type mp = kLinearSquare then Inr x
      else if loss_type mp = kLogisticClassify \<or> loss_type mp = kLogisticNeglik
        then Inr (1 / (1 + exp (- x)))
      else Inl (Error ''unknown loss_type''))"

definition FirstOrderGradient :: "real ModelParam \<Rightarrow> real \<Rightarrow> real \<Rightarrow> error + real" where
  "FirstOrderGradient mp predt label =
     (if loss_type mp = kLinearSquare then Inr (predt - label)
      else if loss_type mp = kLogisticClassify \<or> loss_type mp = kLogisticNeglik
        then Inr (predt - label)
      else Inl (Error ''unknown loss_type''))"

definition SecondOrderGradient :: "real ModelParam \<Rightarrow> real \<Rightarrow> real \<Rightarrow> error + real" where
  "SecondOrderGradient mp predt label =
     (if loss_type mp = kLinearSquare then Inr 1
      else if loss_type mp = kLogisticClassify \<or> loss_type mp = kLogisticNeglik
        then Inr (predt * (1 - predt))
      else Inl (Error ''unknown loss_type''))"

text \<open>
  The constructor. Its argument is the float \<open>0.5f\<close> in the chosen reading of \<open>float\<close>:
  \<open>1 / 2\<close> as a real, \<open>0x3F000000\<close> as an object representation.
\<close>

definition ModelParam_init :: "'f \<Rightarrow> 'f ModelParam" where
  "ModelParam_init half =
     \<lparr>base_score = half, loss_type = 0, num_feature = 0, reserved = replicate 16 0\<rparr>"

definition SetParam :: "real ModelParam \<Rightarrow> string \<Rightarrow> string \<Rightarrow> real ModelParam" where
  "SetParam mp name val =
     (let mp1 = (if name = ''base_score'' then mp\<lparr>base_score := atof val\<rparr> else mp);
          mp2 = (if name = ''loss_type''
                 then mp1\<lparr>loss_type := word_of_int (atoi val)\<rparr> else mp1);
          mp3 = (if name = ''bst:num_feature''
                 then mp2\<lparr>num_feature := word_of_int (atoi val)\<rparr> else mp2)
      in mp3)"

definition AdjustBase :: "real ModelParam \<Rightarrow> error + real ModelParam" where
  "AdjustBase mp =
     (if loss_type mp = 1 \<or> loss_type mp = 2 then
        (if base_score mp > 0 \<and> base_score mp < 1
         then Inr (mp\<lparr>base_score := - ln (1 / base_score mp - 1)\<rparr>)
         else Inl (AssertError ''sigmoid range constrain''))
      else Inr mp)"

subsection \<open>The collaborators\<close>

text \<open>
  Modelled from the spec: \<open>DMatrix\<close> and its feature matrix (dmatrix.h is not among the
  sources). A dataset exposes its row count \<open>Size()\<close>, the column count
  \<open>data.NumCol()\<close>, the feature rows and a label array; both counts are \<open>size_t\<close>.
\<close>

record 'f FMatrix =
  NumCol :: nat
  rows :: "(nat \<times> 'f) list list"

record 'f DMatrix =
  Size :: nat
  data :: "'f FMatrix"
  labels :: "'f list"

text \<open>
  Modelled from the spec: the ensemble collaborator \<open>gbm::GBTree\<close> (gbm/gbtree-inl.h is
  not among the sources). Its state is the sequence of calls the learner has made into
  it; the value \<open>Predict\<close> returns and what \<open>SaveModel\<close> and \<open>LoadModel\<close> do to a
  stream are parameters of the functions that call them.
\<close>

datatype 'f gbm_call =
    GSetParam string string
  | GInitTrainer
  | GInitModel
  | GLoadModel
  | GPredict "'f FMatrix" "32 word" "32 word"
  | GDoBoost "'f list" "'f list" "'f FMatrix" "32 word list"

text \<open>
  Two collaborators for concrete runs: one whose serialized state is empty, so that
  \<open>SaveModel\<close> writes nothing and \<open>LoadModel\<close> reads nothing, and one whose \<open>Predict\<close>
  returns 0 for every row.
\<close>

definition empty_segment_SaveModel ::
  "32 word gbm_call list \<Rightarrow> 8 word list \<Rightarrow> 8 word list" where
  "empty_segment_SaveModel gbm fo = fo"

definition empty_segment_LoadModel ::
  "32 word gbm_call list \<Rightarrow> 8 word list \<Rightarrow> error + 8 word list" where
  "empty_segment_LoadModel gbm fi = Inr fi"


text \<open>Modelled from the spec: the metric collaborator \<open>EvalSet\<close> (evaluation.h), as its calls.\<close>

datatype eval_call = AddEval string | EvalInit

text \<open>
  Modelled from the spec: \<open>utils::IStream\<close> (utils/io.h is not among the sources). A
  stream is the sequence of its bytes; \<open>Write\<close> appends, \<open>Read\<close> takes up to \<open>n\<close>
  bytes from the front, stores them at the start of the destination and returns their
  number (section 4.5: "reads a non-zero byte count").
\<close>

type_synonym stream = "8 word list"

definition Write :: "stream \<Rightarrow> 8 word list \<Rightarrow> stream" where
  "Write fo bytes = fo @ bytes"

definition Read :: "stream \<Rightarrow> 8 word list \<Rightarrow> nat \<Rightarrow> nat \<times> 8 word list \<times> stream" where
  "Read fi dst n =
     (let got = take n fi
      in (length got, got @ drop (length got) dst, drop n fi))"

subsection \<open>The object representation of ModelParam\<close>

text \<open>
  \<open>sizeof(ModelParam)\<close> is 76: nineteen four-byte fields without padding, each stored
  least significant byte first.
\<close>

definition sizeof_ModelParam :: nat where
  "sizeof_ModelParam = 76"

definition le32 :: "32 word \<Rightarrow> 8 word list" where
  "le32 w = [ucast w, ucast (drop_bit 8 w), ucast (drop_bit 16 w), ucast (drop_bit 24 w)]"

fun of_le32 :: "8 word list \<Rightarrow> 32 word" where
  "of_le32 (b0 # b1 # b2 # b3 # bs) =
     ucast b0 OR push_bit 8 (ucast b1) OR push_bit 16 (ucast b2) OR push_bit 24 (ucast b3)"
| "of_le32 bs = 0"

definition field_at :: "8 word list \<Rightarrow> nat \<Rightarrow> 32 word" where
  "field_at bytes i = of_le32 (take 4 (drop (4 * i) bytes))"

definition bytes_of_ModelParam :: "32 word ModelParam \<Rightarrow> 8 word list" where
  "bytes_of_ModelParam mp =
     le32 (base_score mp) @ le32 (loss_type mp) @ le32 (num_feature mp)
       @ concat (map le32 (reserved mp))"

definition ModelParam_of_bytes :: "8 word list \<Rightarrow> 32 word ModelParam" where
  "ModelParam_of_bytes bytes =
     \<lparr>base_score = field_at bytes 0, loss_type = field_at bytes 1,
      num_feature = field_at bytes 2, reserved = map (field_at bytes) [3..<19]\<rparr>"

subsection \<open>class BoostLearner\<close>

text \<open>
  A member the source writes with a trailing underscore, as \<open>train\<close> followed by \<open>_\<close>, is
  the field \<open>m_train\<close> here. The pointer \<open>m_train\<close> is \<open>None\<close> until \<open>SetData\<close> binds a
  dataset; \<open>printf\<close> appends to \<open>stdout\<close>.
\<close>

record 'f BoostLearner =
  silent :: "32 word"
  base_gbm :: "'f gbm_call list"
  m_train :: "'f DMatrix option"
  m_evals :: "'f DMatrix list"
  m_evname :: "string list"
  mparam :: "'f ModelParam"
  m_evaluator :: "eval_call list"
  m_grad :: "'f list"
  m_hess :: "'f list"
  m_preds :: "'f list"
  m_eval_preds :: "'f list list"
  stdout :: "string list"

definition BoostLearner_init :: "'f \<Rightarrow> 'f BoostLearner" where
  "BoostLearner_init half =
     \<lparr>silent = 0, base_gbm = [], m_train = None, m_evals = [], m_evname = [],
      mparam = ModelParam_init half, m_evaluator = [], m_grad = [], m_hess = [], m_preds = [],
      m_eval_preds = [], stdout = []\<rparr>"



definition BoostLearner_SetParam ::
  "real BoostLearner \<Rightarrow> string \<Rightarrow> string \<Rightarrow> real BoostLearner" where
  "BoostLearner_SetParam L name val =
     (let L1 = (if name = ''silent'' then L\<lparr>silent := word_of_int (atoi val)\<rparr> else L);
          L2 = (if name = ''eval_metric''
                then L1\<lparr>m_evaluator := m_evaluator L1 @ [AddEval val]\<rparr> else L1)
      in L2\<lparr>mparam := SetParam (mparam L2) name val,
             base_gbm := base_gbm L2 @ [GSetParam name val]\<rparr>)"

definition InitTrainer :: "'f BoostLearner \<Rightarrow> 'f BoostLearner" where
  "InitTrainer L =
     L\<lparr>base_gbm := base_gbm L @ [GInitTrainer],
       m_evaluator := m_evaluator L
         @ [if loss_type (mparam L) = kLogisticClassify then AddEval ''error''
            else AddEval ''rmse'', EvalInit]\<rparr>"

definition SaveModel ::
  "(32 word gbm_call list \<Rightarrow> stream \<Rightarrow> stream) \<Rightarrow> 32 word BoostLearner \<Rightarrow> stream \<Rightarrow> stream" where
  "SaveModel gbm_SaveModel L fo =
     Write (gbm_SaveModel (base_gbm L) fo) (bytes_of_ModelParam (mparam L))"

definition LoadModel ::
  "(32 word gbm_call list \<Rightarrow> stream \<Rightarrow> error + stream) \<Rightarrow> 32 word BoostLearner \<Rightarrow> stream
     \<Rightarrow> error + (32 word BoostLearner \<times> stream)" where
  "LoadModel gbm_LoadModel L fi =
     (case gbm_LoadModel (base_gbm L) fi of
        Inl e \<Rightarrow> Inl e
      | Inr fi1 \<Rightarrow>
          (case Read fi1 (bytes_of_ModelParam (mparam L)) sizeof_ModelParam of
             (n, obj, fi2) \<Rightarrow>
               if n \<noteq> 0
               then Inr (L\<lparr>base_gbm := base_gbm L @ [GLoadModel],
                           mparam := ModelParam_of_bytes obj\<rparr>, fi2)
               else Inl (AssertError [])))"

definition InitModel :: "real BoostLearner \<Rightarrow> error + real BoostLearner" where
  "InitModel L =
     (case AdjustBase (mparam L) of
        Inl e \<Rightarrow> Inl e
      | Inr mp \<Rightarrow> Inr (L\<lparr>base_gbm := base_gbm L @ [GInitModel], mparam := mp\<rparr>))"




function GetGradient_loop ::
  "real ModelParam \<Rightarrow> real list \<Rightarrow> real list \<Rightarrow> 32 word \<Rightarrow> 32 word \<Rightarrow> real list \<times> real list
     \<Rightarrow> error + (real list \<times> real list)" where
  "GetGradient_loop mp preds lbls ndata j (grad, hess) =
     (if j < ndata then
        (if unat j < length preds \<and> unat j < length lbls
            \<and> unat j < length grad \<and> unat j < length hess
         then
           (case FirstOrderGradient mp (preds ! unat j) (lbls ! unat j) of
              Inl e \<Rightarrow> Inl e
            | Inr g \<Rightarrow>
                (case SecondOrderGradient mp (preds ! unat j) (lbls ! unat j) of
                   Inl e \<Rightarrow> Inl e
                 | Inr h \<Rightarrow>
                     GetGradient_loop mp preds lbls ndata (j + 1)
                       (grad[unat j := g], hess[unat j := h])))
         else Inl OutOfBounds)
      else Inr (grad, hess))"
  by pat_completeness auto
termination
proof (relation "measure (\<lambda>(mp, preds, lbls, ndata, j, s). unat ndata - unat j)")
  show "wf (measure (\<lambda>(mp, preds, lbls, ndata, j, s). unat ndata - unat j))"
    by simp
next
  fix mp :: "real ModelParam" and preds lbls grad hess :: "real list"
  fix ndata j :: "32 word" and g h :: real
  assume "j < ndata"
  then have "unat j < unat ndata"
    by (simp add: word_less_nat_alt)
  moreover have "unat ndata < 2 ^ 32"
    using unsigned_less [of ndata, where ?'a = nat] by simp
  ultimately have "unat (j + 1) = unat j + 1"
    by (simp add: unat_word_ariths)
  with \<open>unat j < unat ndata\<close>
  show "((mp, preds, lbls, ndata, j + 1, grad[unat j := g], hess[unat j := h]),
          (mp, preds, lbls, ndata, j, grad, hess))
        \<in> measure (\<lambda>(mp, preds, lbls, ndata, j, s). unat ndata - unat j)"
    by simp
qed

declare GetGradient_loop.simps [simp del]

definition GetGradient ::
  "real ModelParam \<Rightarrow> real list \<Rightarrow> real list \<Rightarrow> real list \<Rightarrow> real list
     \<Rightarrow> error + (real list \<times> real list)" where
  "GetGradient mp preds lbls grad hess =
     GetGradient_loop mp preds lbls (word_of_nat (length preds)) 0
       (resize (length preds) 0 grad, resize (length preds) 0 hess)"


section \<open>Properties\<close>

subsection \<open>Decimal strings\<close>

text \<open>What \<open>sprintf\<close> prints with \<open>%d\<close> or \<open>%u\<close>, \<open>atoi\<close> reads back.\<close>

lemma isdigit_digit_char: "d < 10 \<Longrightarrow> isdigit (digit_char d)"
  by (simp add: isdigit_def digit_char_def)

lemma digit_value_digit_char: "d < 10 \<Longrightarrow> digit_value (digit_char d) = d"
  by (simp add: digit_value_def digit_char_def)

lemma show_nat_not_Nil: "show_nat n \<noteq> []"
  by (subst show_nat.simps) simp

lemma show_nat_digits: "c \<in> set (show_nat n) \<Longrightarrow> isdigit c"
proof (induction n arbitrary: c rule: show_nat.induct)
  case (1 n)
  show ?case
  proof (cases "n < 10")
    case True
    with "1.prems" show ?thesis
      by (subst (asm) show_nat.simps) (simp add: isdigit_digit_char)
  next
    case False
    with "1.prems" have "c \<in> set (show_nat (n div 10)) \<or> c = digit_char (n mod 10)"
      by (subst (asm) show_nat.simps) auto
    with False "1.IH" show ?thesis
      by (auto simp add: isdigit_digit_char)
  qed
qed

lemma digits_value_show_nat:
  "digits_value acc (show_nat n @ rest) = digits_value (acc * 10 ^ length (show_nat n) + n) rest"
proof (induction n arbitrary: acc rest rule: show_nat.induct)
  case (1 n)
  show ?case
  proof (cases "n < 10")
    case True
    then have "show_nat n = [digit_char n]"
      by (subst show_nat.simps) simp
    with True show ?thesis
      by (simp add: isdigit_digit_char digit_value_digit_char mult.commute)
  next
    case False
    then have s: "show_nat n = show_nat (n div 10) @ [digit_char (n mod 10)]"
      by (subst show_nat.simps) simp
    have "digits_value acc (show_nat (n div 10) @ (digit_char (n mod 10) # rest))
        = digits_value (acc * 10 ^ length (show_nat (n div 10)) + n div 10) (digit_char (n mod 10) # rest)"
      using False by (rule "1.IH")
    then show ?thesis
      by (simp add: s isdigit_digit_char digit_value_digit_char algebra_simps)
  qed
qed

lemma digits_value_show_nat_all: "digits_value 0 (show_nat n) = n"
  using digits_value_show_nat [of 0 n "[]"] by simp

lemma atoi_show_nat: "atoi (show_nat n) = int n"
proof -
  obtain c cs where s: "show_nat n = c # cs"
    using show_nat_not_Nil [of n] by (cases "show_nat n") auto
  then have d: "isdigit c"
    using show_nat_digits [of c n] by simp
  then have "\<not> isspace c" "c \<noteq> CHR ''-''" "c \<noteq> CHR ''+''"
    by (auto simp add: isdigit_def isspace_def)
  then show ?thesis
    using digits_value_show_nat_all [of n] by (simp add: atoi_def s)
qed

lemma atoi_show_int: "atoi (show_int i) = i"
proof (cases "i < 0")
  case True
  have "\<not> isspace CHR ''-''"
    by (simp add: isspace_def)
  then show ?thesis
    using True by (simp add: atoi_def show_int_def digits_value_show_nat_all)
next
  case False
  then show ?thesis
    by (simp add: show_int_def atoi_show_nat)
qed


subsection \<open>The loss formulas\<close>



subsection \<open>Adjusting the base score\<close>



text \<open>
  C7. Under a logistic loss, a base score \<open>b\<close> with \<open>b \<le> 0\<close> or \<open>b \<ge> 1\<close> makes
  \<open>AdjustBase\<close> fail on its assertion: no record is returned, clamped or otherwise.
\<close>

theorem AdjustBase_range:
  "(loss_type mp = kLogisticNeglik \<or> loss_type mp = kLogisticClassify) \<and>
   (base_score mp \<le> 0 \<or> 1 \<le> base_score mp)
   \<Longrightarrow> AdjustBase mp = Inl (AssertError ''sigmoid range constrain'')"
  by (auto simp add: AdjustBase_def kLogisticNeglik_def kLogisticClassify_def)

theorem AdjustBase_range_witness:
  "AdjustBase ((ModelParam_init (1 / 2))\<lparr>loss_type := kLogisticNeglik, base_score := 1\<rparr>)
     = Inl (AssertError ''sigmoid range constrain'')
   \<and> AdjustBase ((ModelParam_init (1 / 2))\<lparr>loss_type := kLogisticClassify, base_score := - 2\<rparr>)
     = Inl (AssertError ''sigmoid range constrain'')"
  using
    AdjustBase_range
      [of "(ModelParam_init (1 / 2))\<lparr>loss_type := kLogisticNeglik, base_score := 1\<rparr>"]
    AdjustBase_range
      [of "(ModelParam_init (1 / 2))\<lparr>loss_type := kLogisticClassify, base_score := - 2\<rparr>"]
  by simp

subsection \<open>Named parameters\<close>

text \<open>
  C2, as the source has it. \<open>SetParam\<close> with the name \<open>bst:num_feature\<close> assigns: the
  field becomes \<open>atoi\<close> of the value string, so for every \<open>int\<close> value \<open>v\<close> printed in
  decimal the field reads \<open>v\<close> afterwards, whether \<open>v\<close> is above or below the previous
  value. Only \<open>SetData\<close> guards the field with a comparison.
\<close>

theorem SetParam_num_feature_assigns:
  "num_feature (SetParam mp ''bst:num_feature'' val) = word_of_int (atoi val)
   \<and> (- (2 ^ 31) \<le> v \<and> v < 2 ^ 31 \<longrightarrow>
        sint (num_feature (SetParam mp ''bst:num_feature'' (show_int v))) = v)"
proof (intro conjI impI)
  show "num_feature (SetParam mp ''bst:num_feature'' val) = word_of_int (atoi val)"
    by (simp add: SetParam_def)
next
  assume "- (2 ^ 31) \<le> v \<and> v < 2 ^ 31"
  then have "sint (word_of_int v :: 32 word) = v"
    by (simp add: sint_sbintrunc' signed_take_bit_int_eq_self)
  then show "sint (num_feature (SetParam mp ''bst:num_feature'' (show_int v))) = v"
    by (simp add: SetParam_def atoi_show_int)
qed

theorem SetParam_num_feature_assigns_witness:
  "sint (num_feature
      (SetParam ((ModelParam_init (1 / 2))\<lparr>num_feature := 5\<rparr>) ''bst:num_feature''
         (show_int 3))) = 3"
  using
    SetParam_num_feature_assigns [of "(ModelParam_init (1 / 2))\<lparr>num_feature := 5\<rparr>" "''3''" 3]
  by simp

text \<open>
  C2 as stated fails: with 5 stored, setting \<open>bst:num_feature\<close> to 3 leaves 3, not the
  maximum 5.
\<close>

theorem SetParam_num_feature_lowers:
  "sint (num_feature
      (SetParam ((ModelParam_init (1 / 2))\<lparr>num_feature := 5\<rparr>) ''bst:num_feature'' ''3'')) = 3
   \<and> sint (num_feature
      (SetParam ((ModelParam_init (1 / 2))\<lparr>num_feature := 5\<rparr>) ''bst:num_feature'' ''3''))
     \<noteq> max (sint (num_feature
          ((ModelParam_init (1 / 2) :: real ModelParam)\<lparr>num_feature := 5\<rparr>))) 3"
  by (simp add: SetParam_def atoi_def isspace_def isdigit_def digit_value_def)

text \<open>
  C9. A name other than \<open>base_score\<close>, \<open>loss_type\<close> and \<open>bst:num_feature\<close> leaves the
  whole record as it was, for every value string; \<open>SetParam\<close> has no failing branch.
\<close>

theorem SetParam_unrecognized:
  "name \<noteq> ''base_score'' \<and> name \<noteq> ''loss_type'' \<and> name \<noteq> ''bst:num_feature''
     \<longrightarrow> SetParam mp name val = mp"
  by (simp add: SetParam_def)

theorem SetParam_unrecognized_witness:
  "SetParam (ModelParam_init (1 / 2)) ''bst:max_depth'' ''6'' = ModelParam_init (1 / 2)"
  using SetParam_unrecognized [of "''bst:max_depth''" "ModelParam_init (1 / 2)" "''6''"]
  by simp

subsection \<open>The persisted record\<close>

text \<open>Four bytes, least significant first, read back as the word they were written from.\<close>

lemma length_le32: "length (le32 w) = 4"
  by (simp add: le32_def)

lemma of_le32_le32: "of_le32 (le32 w @ bs) = w"
proof -
  have "ucast (ucast w :: 8 word) OR push_bit 8 (ucast (ucast (drop_bit 8 w) :: 8 word))
      OR push_bit 16 (ucast (ucast (drop_bit 16 w) :: 8 word))
      OR push_bit 24 (ucast (ucast (drop_bit 24 w) :: 8 word)) = w" (is "?v = w")
  proof (rule bit_word_eqI)
    fix n
    assume "n < LENGTH(32)"
    then consider "n < 8" | "8 \<le> n" "n < 16" | "16 \<le> n" "n < 24" | "24 \<le> n" "n < 32"
      by fastforce
    then show "bit ?v n = bit w n"
      by cases (auto simp add: bit_simps)
  qed
  then show ?thesis
    by (simp add: le32_def)
qed

lemma field_at_concat:
  "i < length ws \<Longrightarrow> field_at (concat (map le32 ws) @ rest) i = ws ! i"
proof (induction ws arbitrary: i)
  case Nil
  then show ?case by simp
next
  case (Cons w ws)
  show ?case
  proof (cases i)
    case 0
    have "take 4 (le32 w @ concat (map le32 ws) @ rest) = le32 w"
      by (simp add: length_le32)
    then show ?thesis
      using of_le32_le32 [of w "[]"] by (simp add: 0 field_at_def)
  next
    case (Suc k)
    with Cons.prems have "k < length ws"
      by simp
    then have "field_at (concat (map le32 ws) @ rest) k = ws ! k"
      by (rule Cons.IH)
    then show ?thesis
      by (simp add: Suc field_at_def length_le32)
  qed
qed

lemma length_concat_le32: "length (concat (map le32 ws)) = 4 * length ws"
  by (induction ws) (simp_all add: length_le32)

lemma bytes_of_ModelParam_concat:
  "bytes_of_ModelParam mp
     = concat (map le32 (base_score mp # loss_type mp # num_feature mp # reserved mp))"
  by (simp add: bytes_of_ModelParam_def)

lemma length_bytes_of_ModelParam:
  "length (reserved mp) = 16 \<Longrightarrow> length (bytes_of_ModelParam mp) = sizeof_ModelParam"
  by (simp add: bytes_of_ModelParam_concat length_concat_le32 sizeof_ModelParam_def
      del: concat.simps list.map)

lemma ModelParam_of_bytes_of:
  assumes "length (reserved mp) = 16"
  shows "ModelParam_of_bytes (bytes_of_ModelParam mp @ rest) = mp"
proof -
  define ws where "ws = base_score mp # loss_type mp # num_feature mp # reserved mp"
  define bytes where "bytes = concat (map le32 ws) @ rest"
  have len: "length ws = 19"
    using assms by (simp add: ws_def)
  have f: "field_at bytes i = ws ! i" if "i < 19" for i
    unfolding bytes_def using that len by (intro field_at_concat) simp
  have "map (field_at bytes) [3..<19] = map ((!) ws) [3..<19]"
  proof (rule map_cong [OF refl])
    fix x
    assume "x \<in> set [3..<19]"
    then have "x < 19"
      by (simp del: upt_rec_numeral)
    then show "field_at bytes x = ws ! x"
      by (rule f)
  qed
  also have "\<dots> = reserved mp"
  proof (rule nth_equalityI)
    show "length (map ((!) ws) [3..<19]) = length (reserved mp)"
      using assms by (simp del: upt_rec_numeral)
  next
    fix i
    assume "i < length (map ((!) ws) [3..<19])"
    then have "i < 16"
      by (simp del: upt_rec_numeral)
    then have "map ((!) ws) [3..<19] ! i = ws ! (3 + i)"
      by (simp del: upt_rec_numeral)
    moreover have "3 + i = Suc (Suc (Suc i))"
      by simp
    ultimately show "map ((!) ws) [3..<19] ! i = reserved mp ! i"
      by (simp add: ws_def)
  qed
  finally have r: "map (field_at bytes) [3..<19] = reserved mp" .
  have "field_at bytes 0 = base_score mp" "field_at bytes 1 = loss_type mp"
    "field_at bytes 2 = num_feature mp"
    using f [of 0] f [of 1] f [of 2] by (simp_all add: ws_def)
  moreover have "bytes_of_ModelParam mp @ rest = bytes"
    by (simp add: bytes_of_ModelParam_def bytes_def ws_def)
  ultimately show ?thesis
    using r by (simp add: ModelParam_of_bytes_def)
qed



text \<open>
  C6. A record with sixteen reserved words (all zero or not) that \<open>SaveModel\<close> writes
  after the collaborator's segment is the record \<open>LoadModel\<close> reads back, field by field
  and bit for bit, whatever follows it in the stream. The collaborator is assumed to
  read back exactly the segment it wrote.
\<close>

theorem SaveModel_LoadModel:
  assumes "length (reserved (mparam L)) = 16"
    and "\<And>rest. gbm_LoadModel (base_gbm L0) (gbm_SaveModel (base_gbm L) [] @ rest) = Inr rest"
  shows "LoadModel gbm_LoadModel L0 (SaveModel gbm_SaveModel L [] @ tail)
    = Inr (L0\<lparr>base_gbm := base_gbm L0 @ [GLoadModel], mparam := mparam L\<rparr>, tail)"
proof -
  let ?img = "bytes_of_ModelParam (mparam L)"
  have len: "length ?img = sizeof_ModelParam"
    using assms(1) by (rule length_bytes_of_ModelParam)
  have "Read (?img @ tail) dst sizeof_ModelParam
      = (sizeof_ModelParam, ?img @ drop sizeof_ModelParam dst, tail)" for dst
    using len by (simp add: Read_def)
  moreover have "ModelParam_of_bytes (?img @ drop sizeof_ModelParam dst) = mparam L" for dst
    using assms(1) by (rule ModelParam_of_bytes_of)
  moreover have "sizeof_ModelParam \<noteq> 0"
    by (simp add: sizeof_ModelParam_def)
  ultimately show ?thesis
    using assms(2) [of "?img @ tail"] by (simp add: LoadModel_def SaveModel_def Write_def)
qed


theorem SaveModel_LoadModel_witness:
  "LoadModel empty_segment_LoadModel (BoostLearner_init 0x3F000000)
     (SaveModel empty_segment_SaveModel
        ((BoostLearner_init 0x3F000000)
           \<lparr>mparam := \<lparr>base_score = 0xBF800000, loss_type = 2, num_feature = 127,
                        reserved = replicate 16 0\<rparr>\<rparr>) [] @ [0xAA])
   = Inr ((BoostLearner_init 0x3F000000)
            \<lparr>base_gbm := [GLoadModel],
             mparam := \<lparr>base_score = 0xBF800000, loss_type = 2, num_feature = 127,
                        reserved = replicate 16 0\<rparr>\<rparr>, [0xAA])"
  using SaveModel_LoadModel
    [of "(BoostLearner_init 0x3F000000)
           \<lparr>mparam := \<lparr>base_score = 0xBF800000, loss_type = 2, num_feature = 127,
                        reserved = replicate 16 0\<rparr>\<rparr>"
      empty_segment_LoadModel "BoostLearner_init 0x3F000000" empty_segment_SaveModel "[0xAA]"]
  by (simp add: empty_segment_LoadModel_def empty_segment_SaveModel_def BoostLearner_init_def)




subsection \<open>The row loops\<close>



lemma length_resize: "length (resize n v xs) = n"
  by (simp add: resize_def)

lemma unat_word_of_nat_le: "unat (word_of_nat n :: 32 word) \<le> n"
  by (simp add: unat_of_nat)

lemma loss_result:
  "(loss_type mp = kLinearSquare \<or> loss_type mp = kLogisticNeglik \<or> loss_type mp = kLogisticClassify
      \<longrightarrow> (\<exists>v. PredTransform mp x = Inr v) \<and> (\<exists>v. FirstOrderGradient mp p y = Inr v)
        \<and> (\<exists>v. SecondOrderGradient mp p y = Inr v))
   \<and> PredTransform mp x \<noteq> Inl OutOfBounds \<and> FirstOrderGradient mp p y \<noteq> Inl OutOfBounds
   \<and> SecondOrderGradient mp p y \<noteq> Inl OutOfBounds"
  by (simp add: PredTransform_def FirstOrderGradient_def SecondOrderGradient_def)

lemma GetGradient_loop_lengths:
  "GetGradient_loop mp preds lbls ndata j (grad, hess) = Inr (g, h)
   \<Longrightarrow> length g = length grad \<and> length h = length hess"
proof (induct mp preds lbls ndata j "(grad, hess)" arbitrary: grad hess
    rule: GetGradient_loop.induct)
  case (1 mp preds lbls ndata j grad hess)
  from "1.prems" show ?case
    by (subst (asm) GetGradient_loop.simps)
      (auto split: if_splits sum.splits dest!: "1.hyps" [rotated 4])
qed

lemma GetGradient_loop_in_bounds:
  "unat ndata \<le> length preds \<Longrightarrow> unat ndata \<le> length lbls \<Longrightarrow> unat ndata \<le> length grad
   \<Longrightarrow> unat ndata \<le> length hess
   \<Longrightarrow> GetGradient_loop mp preds lbls ndata j (grad, hess) \<noteq> Inl OutOfBounds"
proof (induct mp preds lbls ndata j "(grad, hess)" arbitrary: grad hess
    rule: GetGradient_loop.induct)
  case (1 mp preds lbls ndata j grad hess)
  show ?case
  proof (cases "j < ndata")
    case False
    then show ?thesis
      by (subst GetGradient_loop.simps) simp
  next
    case True
    then have b: "unat j < unat ndata"
      by (simp add: word_less_nat_alt)
    with "1.prems" have inb: "unat j < length preds \<and> unat j < length lbls
        \<and> unat j < length grad \<and> unat j < length hess"
      by simp
    show ?thesis
    proof (cases "FirstOrderGradient mp (preds ! unat j) (lbls ! unat j)")
      case (Inl e)
      with True inb loss_result [of mp 0 "preds ! unat j" "lbls ! unat j"] show ?thesis
        by (subst GetGradient_loop.simps) auto
    next
      case g: (Inr g)
      show ?thesis
      proof (cases "SecondOrderGradient mp (preds ! unat j) (lbls ! unat j)")
        case (Inl e)
        with True inb g loss_result [of mp 0 "preds ! unat j" "lbls ! unat j"] show ?thesis
          by (subst GetGradient_loop.simps) auto
      next
        case h: (Inr h)
        have "GetGradient_loop mp preds lbls ndata (j + 1)
            (grad[unat j := g], hess[unat j := h]) \<noteq> Inl OutOfBounds"
          using True inb g h "1.prems" by (intro "1.hyps") simp_all
        with True inb g h show ?thesis
          by (subst GetGradient_loop.simps) simp
      qed
    qed
  qed
qed

lemma GetGradient_loop_returns:
  "loss_type mp = kLinearSquare \<or> loss_type mp = kLogisticNeglik \<or> loss_type mp = kLogisticClassify
   \<Longrightarrow> unat ndata \<le> length preds \<Longrightarrow> unat ndata \<le> length lbls \<Longrightarrow> unat ndata \<le> length grad
   \<Longrightarrow> unat ndata \<le> length hess
   \<Longrightarrow> \<exists>r. GetGradient_loop mp preds lbls ndata j (grad, hess) = Inr r"
proof (induct mp preds lbls ndata j "(grad, hess)" arbitrary: grad hess
    rule: GetGradient_loop.induct)
  case (1 mp preds lbls ndata j grad hess)
  show ?case
  proof (cases "j < ndata")
    case False
    then show ?thesis
      by (subst GetGradient_loop.simps) simp
  next
    case True
    then have b: "unat j < unat ndata"
      by (simp add: word_less_nat_alt)
    with "1.prems" have inb: "unat j < length preds \<and> unat j < length lbls
        \<and> unat j < length grad \<and> unat j < length hess"
      by simp
    obtain g h where g: "FirstOrderGradient mp (preds ! unat j) (lbls ! unat j) = Inr g"
      and h: "SecondOrderGradient mp (preds ! unat j) (lbls ! unat j) = Inr h"
      using loss_result [of mp 0 "preds ! unat j" "lbls ! unat j"] "1.prems"(1) by auto
    have "\<exists>r. GetGradient_loop mp preds lbls ndata (j + 1)
            (grad[unat j := g], hess[unat j := h]) = Inr r"
      using True inb g h "1.prems" by (intro "1.hyps") simp_all
    with True inb g h show ?thesis
      by (subst GetGradient_loop.simps) simp
  qed
qed









text \<open>
  C10. When \<open>labels\<close> is at least as long as \<open>preds\<close>, no access of \<open>GetGradient\<close> is out
  of bounds; the gradient and hessian arrays it returns have the length of \<open>preds\<close>; and it
  does return under each of the three loss types.
\<close>

theorem GetGradient_in_bounds:
  assumes "length preds \<le> length lbls"
  shows "GetGradient mp preds lbls grad hess \<noteq> Inl OutOfBounds
    \<and> (\<forall>g h. GetGradient mp preds lbls grad hess = Inr (g, h)
          \<longrightarrow> length g = length preds \<and> length h = length preds)
    \<and> (loss_type mp = kLinearSquare \<or> loss_type mp = kLogisticNeglik
          \<or> loss_type mp = kLogisticClassify
        \<longrightarrow> (\<exists>g h. GetGradient mp preds lbls grad hess = Inr (g, h)))"
proof (intro conjI allI impI)
  let ?n = "word_of_nat (length preds) :: 32 word"
  have n: "unat ?n \<le> length preds"
    by (rule unat_word_of_nat_le)
  with assms have l: "unat ?n \<le> length lbls"
    by simp
  have r: "unat ?n \<le> length (resize (length preds) 0 grad)"
    "unat ?n \<le> length (resize (length preds) 0 hess)"
    using n by (simp_all add: length_resize)
  show "GetGradient mp preds lbls grad hess \<noteq> Inl OutOfBounds"
    unfolding GetGradient_def using n l r by (rule GetGradient_loop_in_bounds)
  show "length g = length preds" "length h = length preds"
    if "GetGradient mp preds lbls grad hess = Inr (g, h)" for g h
    using that GetGradient_loop_lengths [of mp preds lbls ?n 0 _ _ g h]
    by (simp_all add: GetGradient_def length_resize)
  show "\<exists>g h. GetGradient mp preds lbls grad hess = Inr (g, h)"
    if "loss_type mp = kLinearSquare \<or> loss_type mp = kLogisticNeglik
          \<or> loss_type mp = kLogisticClassify"
    using GetGradient_loop_returns [OF that n l r, of 0] by (auto simp add: GetGradient_def)
qed

theorem GetGradient_in_bounds_witness:
  "GetGradient (ModelParam_init (1 / 2)) [1, 2] [0, 1, 5] [] [7] \<noteq> Inl OutOfBounds
   \<and> (\<exists>g h. GetGradient (ModelParam_init (1 / 2)) [1, 2] [0, 1, 5] [] [7] = Inr (g, h)
          \<and> length g = 2 \<and> length h = 2)"
  using GetGradient_in_bounds [of "[1, 2]" "[0, 1, 5]" "ModelParam_init (1 / 2)" "[]" "[7]"]
  by (auto simp add: ModelParam_init_def kLinearSquare_def)








end
